theory Spec2Isabelle
  imports Complex_Main
begin

section \<open>Order documents (models/payment.model.js)\<close>

text \<open>
  The Mongoose schema \<open>paymentSchema\<close> becomes a record. The two enumerated string fields
  are datatypes; a string outside the enumeration is rejected by the schema when the
  document is saved, which the parsers below make explicit. A \<open>Date\<close> is the number of
  milliseconds since the epoch; an unset or \<open>null\<close> date is \<open>None\<close>. The document
  identifier \<open>_id\<close> is a natural number. JavaScript numbers received from a JSON body
  are finite and are read as rationals. The \<open>updatedAt\<close> stamp is left out: no code reads it.
\<close>

datatype order_status = Pending | Confirmed | Processing | Shipped | Delivered | Cancelled

datatype verification_status = VPending | VVerified | VFailed

type_synonym date = int

record address_doc =
  village :: string
  district :: string
  pincode :: string
  state :: string

record book_details =
  bookCode :: string
  bookName :: string
  price :: rat

record payment_doc =
  utr :: string
  amount :: rat
  upiId :: string
  verificationStatus :: verification_status

record order_doc =
  oid :: nat
  customerName :: string
  customerEmail :: string
  mobile :: string
  address :: address_doc
  bookDetails :: book_details
  payment :: payment_doc
  orderStatus :: order_status
  adminNotes :: string
  orderDate :: date
  confirmedDate :: "date option"
  shippedDate :: "date option"
  deliveredDate :: "date option"
  emailSent :: bool
  emailSentDate :: "date option"
  createdAt :: date

subsection \<open>Schema setters and validators\<close>

text \<open>
  \<open>trim: true\<close> and \<open>lowercase: true\<close> are setters applied when a field is assigned:
  the JavaScript built-ins \<open>String.prototype.trim\<close> and
  \<open>String.prototype.toLowerCase\<close>. They are not code of this repository and are
  parameters of the model (see \<open>env\<close> below). \<open>mobile\<close>, \<open>pincode\<close>, \<open>state\<close> and
  \<open>utr\<close> have no setter.
\<close>

definition is_digit :: "char \<Rightarrow> bool" where
  "is_digit c = (c \<in> set ''0123456789'')"

text \<open>The validators \<open>/^\d{n}$/.test(v)\<close>: the whole string is exactly \<open>n\<close> ASCII digits.\<close>

definition digits_exactly :: "nat \<Rightarrow> string \<Rightarrow> bool" where
  "digits_exactly n v = (length v = n \<and> list_all is_digit v)"

definition allowedStates :: "string list" where
  "allowedStates = [''Andhra Pradesh'', ''Telangana'', ''Odisha'']"

text \<open>\<open>required: true\<close> on a string path rejects the empty string.\<close>

definition validate_address :: "address_doc \<Rightarrow> bool" where
  "validate_address a =
     (village a \<noteq> [] \<and> district a \<noteq> [] \<and>
      pincode a \<noteq> [] \<and> digits_exactly 6 (pincode a) \<and>
      state a \<noteq> [] \<and> state a \<in> set allowedStates)"

definition validate_bookDetails :: "book_details \<Rightarrow> bool" where
  "validate_bookDetails b = (bookCode b \<noteq> [] \<and> bookName b \<noteq> [] \<and> 1 \<le> price b)"

definition validate_payment :: "payment_doc \<Rightarrow> bool" where
  "validate_payment p =
     (utr p \<noteq> [] \<and> digits_exactly 12 (utr p) \<and> 1 \<le> amount p \<and> upiId p \<noteq> [])"

definition validate_doc :: "order_doc \<Rightarrow> bool" where
  "validate_doc d =
     (customerName d \<noteq> [] \<and> customerEmail d \<noteq> [] \<and>
      mobile d \<noteq> [] \<and> digits_exactly 10 (mobile d) \<and>
      validate_address (address d) \<and> validate_bookDetails (bookDetails d) \<and>
      validate_payment (payment d))"

definition parse_verification :: "string \<Rightarrow> verification_status option" where
  "parse_verification s =
     (if s = ''pending'' then Some VPending
      else if s = ''verified'' then Some VVerified
      else if s = ''failed'' then Some VFailed
      else None)"

definition parse_order_status :: "string \<Rightarrow> order_status option" where
  "parse_order_status s =
     (if s = ''pending'' then Some Pending
      else if s = ''confirmed'' then Some Confirmed
      else if s = ''processing'' then Some Processing
      else if s = ''shipped'' then Some Shipped
      else if s = ''delivered'' then Some Delivered
      else if s = ''cancelled'' then Some Cancelled
      else None)"

section \<open>The world: order collection, mail gateway, book catalogue\<close>

text \<open>
  Every mail function of the controller and of the scheduler wraps its whole body in
  \<open>try { ... } catch (error) { console.error(...) }\<close>: it creates a transport, tries
  to send one message, and returns normally whether or not any of this threw. The model
  records each call of a mail function as an attempt in an outbox, together with its
  outcome: \<open>True\<close> when the message was delivered, \<open>False\<close> when creating the
  transport or sending threw. The outcome is a parameter (\<open>gateway\<close>), as the transport
  is an external library; the controller and the scheduler create it with
  \<open>nodemailer.createTransporter\<close>, and a library without that function makes every
  outcome \<open>False\<close>, which is the transport of \<open>shop_offline\<close> below. The book collection is
  not part of these sources: \<open>Book.findOne({ bookcode })\<close> is the parameter \<open>catalog\<close>,
  giving the book's name. \<open>trim\<close> and \<open>toLowerCase\<close> are the two string built-ins
  behind the schema's setters.

  The collection is a list of documents in insertion order and is always available: a
  query or a save fails only through the schema (validators, unique index). An order
  identifier in a request is a well-formed identifier. Each request and each run of the
  scheduler reads the clock once (\<open>now\<close>); the few \<open>new Date()\<close> of one request are
  not told apart.
\<close>

datatype mail_kind =
    AdminOrderNotification
  | CustomerOrderConfirmation
  | OrderConfirmedEmail
  | OrderCancelledEmail
  | OrderStatusUpdateEmail order_status
  | SchedulerConfirmedEmail
  | SchedulerCancelledEmail

record mail =
  kind :: mail_kind
  recipient :: string
  about :: nat

record env =
  catalog :: "string \<Rightarrow> string option"
  gateway :: "mail \<Rightarrow> bool"
  trim :: "string \<Rightarrow> string"
  toLowerCase :: "string \<Rightarrow> string"

record world =
  orders :: "order_doc list"
  next_id :: nat
  outbox :: "(mail \<times> bool) list"

definition ADMIN_EMAIL :: string where
  "ADMIN_EMAIL = ''payment.haribookstore1@gmail.com''"

definition attempt :: "env \<Rightarrow> mail \<Rightarrow> world \<Rightarrow> world" where
  "attempt e m w = w\<lparr>outbox := outbox w @ [(m, gateway e m)]\<rparr>"

definition customer_mail :: "mail_kind \<Rightarrow> order_doc \<Rightarrow> mail" where
  "customer_mail k d = \<lparr>kind = k, recipient = customerEmail d, about = oid d\<rparr>"


subsection \<open>Collection operations\<close>

definition findById :: "nat \<Rightarrow> world \<Rightarrow> order_doc option" where
  "findById i w = find (\<lambda>d. oid d = i) (orders w)"

definition findOneByUtr :: "string \<Rightarrow> world \<Rightarrow> order_doc option" where
  "findOneByUtr u w = find (\<lambda>d. utr (payment d) = u) (orders w)"

datatype save_error = ValidationError | DuplicateKeyError

text \<open>
  \<open>doc.save()\<close> of a document loaded from the collection: the schema validators run, then
  the stored document with the same \<open>_id\<close> is replaced.
\<close>

definition save :: "order_doc \<Rightarrow> world \<Rightarrow> save_error + world" where
  "save d w =
     (if validate_doc d
      then Inr (w\<lparr>orders := map (\<lambda>x. if oid x = oid d then d else x) (orders w)\<rparr>)
      else Inl ValidationError)"

text \<open>
  \<open>save()\<close> of a new document: validators, then the insert, which the unique index on
  \<open>payment.utr\<close> refuses for a reference that is already stored. The identifier and
  \<open>createdAt\<close> were given when the document was constructed.
\<close>

definition save_new :: "order_doc \<Rightarrow> world \<Rightarrow> save_error + world" where
  "save_new d w =
     (if \<not> validate_doc d then Inl ValidationError
      else if utr (payment d) \<in> set (map (\<lambda>x. utr (payment x)) (orders w))
      then Inl DuplicateKeyError
      else Inr (w\<lparr>orders := orders w @ [d], next_id := Suc (next_id w)\<rparr>))"

section \<open>Request bodies and replies\<close>

text \<open>
  A text field of \<open>req.body\<close> is a string or is absent (\<open>None\<close>). \<open>amount\<close> and
  \<open>verificationStatus\<close>, which the controller compares with \<open>!==\<close> and \<open>===\<close> and
  tests for truth, keep their JavaScript type: any JSON value or absent (\<open>JObject\<close> is
  an array or an object, whose content plays no role). \<open>truthy\<close> and \<open>js_truthy\<close> are
  JavaScript's \<open>!!v\<close>, and \<open>str v\<close> is \<open>v || ""\<close>.
\<close>

datatype jsval = JUndefined | JNull | JBool bool | JNumber rat | JString string | JObject

definition js_truthy :: "jsval \<Rightarrow> bool" where
  "js_truthy v =
     (case v of JUndefined \<Rightarrow> False | JNull \<Rightarrow> False | JBool b \<Rightarrow> b
      | JNumber n \<Rightarrow> n \<noteq> 0 | JString s \<Rightarrow> s \<noteq> [] | JObject \<Rightarrow> True)"

definition truthy :: "string option \<Rightarrow> bool" where
  "truthy v = (case v of None \<Rightarrow> False | Some s \<Rightarrow> s \<noteq> [])"

definition str :: "string option \<Rightarrow> string" where
  "str v = (case v of None \<Rightarrow> [] | Some s \<Rightarrow> s)"

text \<open>The number stored for a numeric path; past the price check the value is a number.\<close>

definition number_of :: "jsval \<Rightarrow> rat" where
  "number_of v = (case v of JNumber n \<Rightarrow> n | _ \<Rightarrow> 0)"

record create_body =
  in_customerName :: "string option"
  in_customerEmail :: "string option"
  in_mobile :: "string option"
  in_village :: "string option"
  in_district :: "string option"
  in_pincode :: "string option"
  in_state :: "string option"
  in_bookCode :: "string option"
  in_bookName :: "string option"
  in_utr :: "string option"
  in_amount :: jsval

record confirm_body =
  confirm_adminNotes :: "string option"
  confirm_verificationStatus :: jsval

record status_body =
  update_status :: "string option"
  update_adminNotes :: "string option"

datatype message =
    AllFieldsRequired
  | OnlyDeliverTo
  | BookNotFound
  | PriceMismatch
  | UtrAlreadyUsed
  | FailedToCreateOrder
  | OrderPlaced
  | OrderNotFound
  | OrderConfirmed
  | OrderCancelled
  | FailedToUpdateStatus
  | InvalidStatus
  | StatusUpdated

record reply =
  status :: nat
  success :: bool
  message :: message
  reply_order :: "order_doc option"

definition failure :: "nat \<Rightarrow> message \<Rightarrow> reply" where
  "failure c m = \<lparr>status = c, success = False, message = m, reply_order = None\<rparr>"

definition succeed :: "nat \<Rightarrow> message \<Rightarrow> order_doc \<Rightarrow> reply" where
  "succeed c m d = \<lparr>status = c, success = True, message = m, reply_order = Some d\<rparr>"

section \<open>The payment controller (controller/payment.controller.js)\<close>

subsection \<open>Mail functions\<close>

definition sendAdminOrderNotification :: "env \<Rightarrow> order_doc \<Rightarrow> world \<Rightarrow> world" where
  "sendAdminOrderNotification e d w =
     attempt e \<lparr>kind = AdminOrderNotification, recipient = ADMIN_EMAIL, about = oid d\<rparr> w"

definition sendCustomerOrderConfirmation :: "env \<Rightarrow> order_doc \<Rightarrow> world \<Rightarrow> world" where
  "sendCustomerOrderConfirmation e d w = attempt e (customer_mail CustomerOrderConfirmation d) w"

definition sendOrderConfirmedEmail :: "env \<Rightarrow> order_doc \<Rightarrow> world \<Rightarrow> world" where
  "sendOrderConfirmedEmail e d w = attempt e (customer_mail OrderConfirmedEmail d) w"

definition sendOrderCancelledEmail :: "env \<Rightarrow> order_doc \<Rightarrow> world \<Rightarrow> world" where
  "sendOrderCancelledEmail e d w = attempt e (customer_mail OrderCancelledEmail d) w"

definition sendOrderStatusUpdateEmail :: "env \<Rightarrow> order_doc \<Rightarrow> world \<Rightarrow> world" where
  "sendOrderStatusUpdateEmail e d w =
     (case orderStatus d of
        Processing \<Rightarrow> attempt e (customer_mail (OrderStatusUpdateEmail Processing) d) w
      | Shipped \<Rightarrow> attempt e (customer_mail (OrderStatusUpdateEmail Shipped) d) w
      | Delivered \<Rightarrow> attempt e (customer_mail (OrderStatusUpdateEmail Delivered) d) w
      | _ \<Rightarrow> w)"

subsection \<open>createOrder\<close>

definition FIXED_BOOK_PRICE :: rat where
  "FIXED_BOOK_PRICE = 1"

definition DELIVERY_CHARGE :: rat where
  "DELIVERY_CHARGE = 34"

definition EXPECTED_TOTAL :: rat where
  "EXPECTED_TOTAL = FIXED_BOOK_PRICE + DELIVERY_CHARGE"

definition all_fields_present :: "create_body \<Rightarrow> bool" where
  "all_fields_present b =
     (truthy (in_customerName b) \<and> truthy (in_customerEmail b) \<and> truthy (in_mobile b) \<and>
      truthy (in_village b) \<and> truthy (in_district b) \<and> truthy (in_pincode b) \<and>
      truthy (in_state b) \<and> truthy (in_bookCode b) \<and> truthy (in_bookName b) \<and>
      truthy (in_utr b) \<and> js_truthy (in_amount b))"

text \<open>
  \<open>new Payment({...})\<close>: the setters run, the defaults are filled in. \<open>customerEmail\<close>
  has both setters; the two built-ins commute, so their order does not matter.
\<close>

definition new_Payment ::
  "env \<Rightarrow> date \<Rightarrow> nat \<Rightarrow> create_body \<Rightarrow> string \<Rightarrow> order_doc" where
  "new_Payment e now i b book_name =
     \<lparr>oid = i,
      customerName = trim e (str (in_customerName b)),
      customerEmail = toLowerCase e (trim e (str (in_customerEmail b))),
      mobile = str (in_mobile b),
      address = \<lparr>village = trim e (str (in_village b)),
                 district = trim e (str (in_district b)),
                 pincode = str (in_pincode b), state = str (in_state b)\<rparr>,
      bookDetails = \<lparr>bookCode = trim e (str (in_bookCode b)), bookName = trim e book_name,
                     price = FIXED_BOOK_PRICE\<rparr>,
      payment = \<lparr>utr = str (in_utr b), amount = number_of (in_amount b),
                 upiId = ''7416219267@ybl'', verificationStatus = VPending\<rparr>,
      orderStatus = Pending,
      adminNotes = [],
      orderDate = now,
      confirmedDate = None,
      shippedDate = None,
      deliveredDate = None,
      emailSent = False,
      emailSentDate = None,
      createdAt = now\<rparr>"

definition createOrder :: "env \<Rightarrow> date \<Rightarrow> create_body \<Rightarrow> world \<Rightarrow> reply \<times> world" where
  "createOrder e now b w =
     (if \<not> all_fields_present b then (failure 400 AllFieldsRequired, w)
      else if str (in_state b) \<notin> set allowedStates then (failure 400 OnlyDeliverTo, w)
      else case catalog e (str (in_bookCode b)) of
        None \<Rightarrow> (failure 404 BookNotFound, w)
      | Some book_name \<Rightarrow>
          if in_amount b \<noteq> JNumber EXPECTED_TOTAL then (failure 400 PriceMismatch, w)
          else if findOneByUtr (str (in_utr b)) w \<noteq> None then (failure 400 UtrAlreadyUsed, w)
          else
            let newOrder = new_Payment e now (next_id w) b book_name in
            case save_new newOrder w of
              Inl err \<Rightarrow> (failure 500 FailedToCreateOrder, w)
            | Inr w1 \<Rightarrow>
                let w2 = sendAdminOrderNotification e newOrder w1;
                    w3 = sendCustomerOrderConfirmation e newOrder w2
                in (succeed 201 OrderPlaced newOrder, w3))"

subsection \<open>confirmOrder\<close>

text \<open>
  The assignments of \<open>confirmOrder\<close> to the loaded document.
  \<open>assigned_verification\<close> is the value of \<open>verificationStatus || "verified"\<close>, which
  the schema's enum validator checks at \<open>save()\<close>; the other three assignments test
  \<open>verificationStatus === "verified"\<close> on the request's own value.
\<close>

definition assigned_verification :: "confirm_body \<Rightarrow> jsval" where
  "assigned_verification b =
     (if js_truthy (confirm_verificationStatus b) then confirm_verificationStatus b
      else JString ''verified'')"

text \<open>
  The enum validator of \<open>payment.verificationStatus\<close> on the assigned value. A value
  that is not a string (\<open>true\<close>, a number, an array, an object) is cast by the string
  path to its text or not at all; in either case it is none of the three names and
  \<open>save()\<close> rejects the document.
\<close>

definition validated_verification :: "jsval \<Rightarrow> verification_status option" where
  "validated_verification v = (case v of JString s \<Rightarrow> parse_verification s | _ \<Rightarrow> None)"

definition is_verified :: "confirm_body \<Rightarrow> bool" where
  "is_verified b = (confirm_verificationStatus b = JString ''verified'')"

definition assign_decision ::
  "date \<Rightarrow> confirm_body \<Rightarrow> verification_status \<Rightarrow> order_doc \<Rightarrow> order_doc" where
  "assign_decision now b v order =
     order\<lparr>payment := (payment order)\<lparr>verificationStatus := v\<rparr>,
           orderStatus := (if is_verified b then Confirmed else Cancelled),
           confirmedDate := (if is_verified b then Some now else None),
           adminNotes := str (confirm_adminNotes b)\<rparr>"

definition confirmOrder ::
  "env \<Rightarrow> date \<Rightarrow> nat \<Rightarrow> confirm_body \<Rightarrow> world \<Rightarrow> reply \<times> world" where
  "confirmOrder e now orderId b w =
     (case findById orderId w of
        None \<Rightarrow> (failure 404 OrderNotFound, w)
      | Some order \<Rightarrow>
          (case validated_verification (assigned_verification b) of
             None \<Rightarrow> (failure 500 FailedToUpdateStatus, w)
           | Some v \<Rightarrow>
               (case save (assign_decision now b v order) w of
                  Inl err \<Rightarrow> (failure 500 FailedToUpdateStatus, w)
                | Inr w1 \<Rightarrow>
                    (succeed 200 (if is_verified b then OrderConfirmed else OrderCancelled)
                       (assign_decision now b v order),
                     if is_verified b
                     then sendOrderConfirmedEmail e (assign_decision now b v order) w1
                     else sendOrderCancelledEmail e (assign_decision now b v order) w1))))"

subsection \<open>updateOrderStatus\<close>

definition validStatuses :: "string list" where
  "validStatuses =
     [''pending'', ''confirmed'', ''processing'', ''shipped'', ''delivered'', ''cancelled'']"

definition array_includes :: "string list \<Rightarrow> string option \<Rightarrow> bool" where
  "array_includes xs v = (case v of None \<Rightarrow> False | Some s \<Rightarrow> s \<in> set xs)"

text \<open>The assignments of \<open>updateOrderStatus\<close> to the loaded document.\<close>

definition assign_status ::
  "date \<Rightarrow> status_body \<Rightarrow> order_status \<Rightarrow> order_doc \<Rightarrow> order_doc" where
  "assign_status now b st order =
     (let order1 = order
            \<lparr>orderStatus := st,
             adminNotes := (if truthy (update_adminNotes b) then str (update_adminNotes b)
                            else adminNotes order)\<rparr>;
          order2 = (if st = Shipped \<and> shippedDate order1 = None
                    then order1\<lparr>shippedDate := Some now\<rparr> else order1)
      in if st = Delivered \<and> deliveredDate order2 = None
         then order2\<lparr>deliveredDate := Some now\<rparr> else order2)"

definition updateOrderStatus ::
  "env \<Rightarrow> date \<Rightarrow> nat \<Rightarrow> status_body \<Rightarrow> world \<Rightarrow> reply \<times> world" where
  "updateOrderStatus e now orderId b w =
     (if \<not> array_includes validStatuses (update_status b) then (failure 400 InvalidStatus, w)
      else case findById orderId w of
        None \<Rightarrow> (failure 404 OrderNotFound, w)
      | Some order \<Rightarrow>
          (case parse_order_status (str (update_status b)) of
             None \<Rightarrow> (failure 500 FailedToUpdateStatus, w)
           | Some st \<Rightarrow>
               (case save (assign_status now b st order) w of
                  Inl err \<Rightarrow> (failure 500 FailedToUpdateStatus, w)
                | Inr w1 \<Rightarrow>
                    (succeed 200 StatusUpdated (assign_status now b st order),
                     sendOrderStatusUpdateEmail e (assign_status now b st order) w1))))"

section \<open>The email scheduler (services/emailScheduler.service.js)\<close>

definition scheduler_sendOrderConfirmedEmail :: "env \<Rightarrow> order_doc \<Rightarrow> world \<Rightarrow> world" where
  "scheduler_sendOrderConfirmedEmail e d w = attempt e (customer_mail SchedulerConfirmedEmail d) w"

definition scheduler_sendOrderCancelledEmail :: "env \<Rightarrow> order_doc \<Rightarrow> world \<Rightarrow> world" where
  "scheduler_sendOrderCancelledEmail e d w = attempt e (customer_mail SchedulerCancelledEmail d) w"

text \<open>
  \<open>sendStatusEmail\<close>: the mail functions swallow their own errors, so inside the \<open>try\<close>
  only \<open>order.save()\<close> can throw; the \<open>catch\<close> then logs and returns.
\<close>

definition sendStatusEmail :: "env \<Rightarrow> date \<Rightarrow> order_doc \<Rightarrow> world \<Rightarrow> world" where
  "sendStatusEmail e now order w =
     (let w1 = (if orderStatus order = Confirmed then scheduler_sendOrderConfirmedEmail e order w
                else if orderStatus order = Cancelled
                then scheduler_sendOrderCancelledEmail e order w
                else w);
          order1 = order\<lparr>emailSent := True, emailSentDate := Some now\<rparr>
      in case save order1 w1 of Inl err \<Rightarrow> w1 | Inr w2 \<Rightarrow> w2)"

text \<open>The query of \<open>checkAndSendEmails\<close>.\<close>

definition ordersToEmail :: "date \<Rightarrow> world \<Rightarrow> order_doc list" where
  "ordersToEmail now w =
     (let twoHoursAgo = now - 2 * 60 * 60 * 1000
      in filter (\<lambda>d. createdAt d \<le> twoHoursAgo \<and> emailSent d \<noteq> True \<and>
                     orderStatus d \<in> set [Confirmed, Cancelled]) (orders w))"

definition checkAndSendEmails :: "env \<Rightarrow> date \<Rightarrow> world \<Rightarrow> world" where
  "checkAndSendEmails e now w = fold (sendStatusEmail e now) (ordersToEmail now w) w"

section \<open>Runs of the system\<close>

datatype request =
    PostPayment create_body
  | PutConfirm nat confirm_body
  | PutStatus nat status_body
  | SchedulerRun

definition step :: "env \<Rightarrow> date \<Rightarrow> request \<Rightarrow> world \<Rightarrow> world" where
  "step e now r w =
     (case r of
        PostPayment b \<Rightarrow> snd (createOrder e now b w)
      | PutConfirm i b \<Rightarrow> snd (confirmOrder e now i b w)
      | PutStatus i b \<Rightarrow> snd (updateOrderStatus e now i b w)
      | SchedulerRun \<Rightarrow> checkAndSendEmails e now w)"

definition empty_world :: world where
  "empty_world = \<lparr>orders = [], next_id = 0, outbox = []\<rparr>"

text \<open>
  The worlds the system can be in: from the empty collection, any request at any time,
  with any catalogue and any behaviour of the mail transport at that moment.
\<close>

inductive reachable :: "world \<Rightarrow> bool" where
  start: "reachable empty_world"
| after: "reachable w \<Longrightarrow> reachable (step e now r w)"

section \<open>Vocabulary of the properties\<close>

text \<open>The scheduler's message for an order, chosen by the order's status.\<close>

definition decision_mail :: "order_doc \<Rightarrow> mail" where
  "decision_mail d =
     customer_mail (if orderStatus d = Confirmed then SchedulerConfirmedEmail
                    else SchedulerCancelledEmail) d"

definition mark_sent :: "date \<Rightarrow> order_doc \<Rightarrow> order_doc" where
  "mark_sent now d = d\<lparr>emailSent := True, emailSentDate := Some now\<rparr>"

text \<open>The fields of a stored order that no operation changes after creation.\<close>

definition keeps_core :: "order_doc \<Rightarrow> order_doc \<Rightarrow> bool" where
  "keeps_core d d' =
     (oid d' = oid d \<and> utr (payment d') = utr (payment d) \<and>
      amount (payment d') = amount (payment d) \<and>
      price (bookDetails d') = price (bookDetails d))"

text \<open>The invariant of the collection.\<close>

definition store_ok :: "world \<Rightarrow> bool" where
  "store_ok w =
     (distinct (map oid (orders w)) \<and>
      distinct (map (\<lambda>d. utr (payment d)) (orders w)) \<and>
      list_all (\<lambda>d. oid d < next_id w \<and> validate_doc d \<and>
                     amount (payment d) = 35 \<and> price (bookDetails d) = 1) (orders w))"



section \<open>An example run\<close>

text \<open>
  The setters of the example run: trimming of ASCII white space and lower case of ASCII
  letters, which is what the two built-ins do on the ASCII strings of the example.
\<close>

definition is_space :: "char \<Rightarrow> bool" where
  "is_space c = (c \<in> set [CHR '' '', CHR 0x09, CHR 0x0A, CHR 0x0B, CHR 0x0C, CHR 0x0D])"

definition ascii_trim :: "string \<Rightarrow> string" where
  "ascii_trim s = rev (dropWhile is_space (rev (dropWhile is_space s)))"

definition lower_char :: "char \<Rightarrow> char" where
  "lower_char c =
     (case map_of (zip ''ABCDEFGHIJKLMNOPQRSTUVWXYZ'' ''abcdefghijklmnopqrstuvwxyz'') c of
        None \<Rightarrow> c | Some d \<Rightarrow> d)"

definition ascii_lowercase :: "string \<Rightarrow> string" where
  "ascii_lowercase s = map lower_char s"

text \<open>
  A catalogue with one book. The transport of \<open>shop\<close> delivers every message, the
  transport of \<open>shop_offline\<close> throws on every message.
\<close>

definition shop :: env where
  "shop = \<lparr>catalog = (\<lambda>c. if c = ''B1'' then Some ''Book One'' else None),
           gateway = (\<lambda>m. True),
           trim = ascii_trim, toLowerCase = ascii_lowercase\<rparr>"

definition shop_offline :: env where
  "shop_offline = \<lparr>catalog = (\<lambda>c. if c = ''B1'' then Some ''Book One'' else None),
                   gateway = (\<lambda>m. False),
                   trim = ascii_trim, toLowerCase = ascii_lowercase\<rparr>"

definition ravi :: create_body where
  "ravi = \<lparr>in_customerName = Some ''Ravi'', in_customerEmail = Some ''Ravi@Example.com'',
     in_mobile = Some ''9876543210'', in_village = Some ''Kondapur'',
     in_district = Some ''Rangareddy'', in_pincode = Some ''500084'',
     in_state = Some ''Telangana'', in_bookCode = Some ''B1'', in_bookName = Some ''Book One'',
     in_utr = Some ''123456789012'', in_amount = JNumber 35\<rparr>"

definition sita :: create_body where
  "sita = \<lparr>in_customerName = Some ''Sita'', in_customerEmail = Some ''sita@example.com'',
     in_mobile = Some ''9123456780'', in_village = Some ''Puri'',
     in_district = Some ''Puri'', in_pincode = Some ''752001'',
     in_state = Some ''Odisha'', in_bookCode = Some ''B1'', in_bookName = Some ''Book One'',
     in_utr = Some ''210987654321'', in_amount = JNumber 35\<rparr>"

definition verify_body :: confirm_body where
  "verify_body = \<lparr>confirm_adminNotes = Some ''ok'',
                  confirm_verificationStatus = JString ''verified''\<rparr>"

definition reject_body :: confirm_body where
  "reject_body = \<lparr>confirm_adminNotes = Some ''bad UTR'',
                  confirm_verificationStatus = JString ''failed''\<rparr>"


definition to_status :: "string \<Rightarrow> status_body" where
  "to_status s = \<lparr>update_status = Some s, update_adminNotes = None\<rparr>"

definition world_placed :: world where
  "world_placed = step shop 1000 (PostPayment ravi) empty_world"

text \<open>The same order placed, and then verified, while the transport throws.\<close>

definition world_placed_offline :: world where
  "world_placed_offline = step shop_offline 1000 (PostPayment ravi) empty_world"

definition world_confirmed_offline :: world where
  "world_confirmed_offline =
     step shop_offline 2000 (PutConfirm 0 verify_body) world_placed_offline"

definition world_confirmed :: world where
  "world_confirmed = step shop 2000 (PutConfirm 0 verify_body) world_placed"

text \<open>Two orders, the first confirmed and the second cancelled.\<close>

definition world_two :: world where
  "world_two =
     step shop 2500 (PutConfirm 1 reject_body)
       (step shop 1500 (PostPayment sita) world_confirmed)"

text \<open>The same after a run of the scheduler, long after both orders were placed.\<close>

definition world_swept :: world where
  "world_swept = step shop 8000000 SchedulerRun world_two"

definition world_delivered :: world where
  "world_delivered =
     step shop 4000 (PutStatus 0 (to_status ''delivered''))
       (step shop 3000 (PutStatus 0 (to_status ''shipped'')) world_confirmed)"

section \<open>Basic facts about the collection and the outbox\<close>

lemma outbox_attempt: "outbox (attempt e m w) = outbox w @ [(m, gateway e m)]"
  by (simp add: attempt_def)

lemma orders_attempt: "orders (attempt e m w) = orders w"
  by (simp add: attempt_def)

lemma next_id_attempt: "next_id (attempt e m w) = next_id w"
  by (simp add: attempt_def)

lemma outbox_sendStatusEmail:
  "outbox (sendStatusEmail e now d w) =
     outbox w @ (if orderStatus d \<in> {Confirmed, Cancelled}
                 then [(decision_mail d, gateway e (decision_mail d))] else [])"
  by (simp add: sendStatusEmail_def save_def Let_def decision_mail_def outbox_attempt
      scheduler_sendOrderConfirmedEmail_def scheduler_sendOrderCancelledEmail_def)

lemma validate_mark_sent: "validate_doc (mark_sent now d) = validate_doc d"
  by (simp add: validate_doc_def mark_sent_def)

lemma orders_sendStatusEmail:
  "orders (sendStatusEmail e now d w) =
     map (\<lambda>x. if oid x = oid d \<and> validate_doc d then mark_sent now d else x) (orders w)"
proof -
  have v: "validate_doc (d\<lparr>emailSent := True, emailSentDate := Some now\<rparr>) = validate_doc d"
    using validate_mark_sent [of now d] by (simp add: mark_sent_def)
  show ?thesis
    by (simp add: sendStatusEmail_def save_def Let_def v orders_attempt mark_sent_def
        scheduler_sendOrderConfirmedEmail_def scheduler_sendOrderCancelledEmail_def)
qed

lemma next_id_sendStatusEmail: "next_id (sendStatusEmail e now d w) = next_id w"
  by (simp add: sendStatusEmail_def save_def Let_def next_id_attempt
      scheduler_sendOrderConfirmedEmail_def scheduler_sendOrderCancelledEmail_def)

lemma outbox_fold_sendStatusEmail:
  "list_all (\<lambda>d. orderStatus d \<in> {Confirmed, Cancelled}) ds \<Longrightarrow>
   outbox (fold (sendStatusEmail e now) ds w) =
     outbox w @ map (\<lambda>d. (decision_mail d, gateway e (decision_mail d))) ds"
  by (induction ds arbitrary: w) (simp_all add: outbox_sendStatusEmail)

lemma next_id_fold_sendStatusEmail:
  "next_id (fold (sendStatusEmail e now) ds w) = next_id w"
  by (induction ds arbitrary: w) (simp_all add: next_id_sendStatusEmail)

lemma ordersToEmail_eq:
  "ordersToEmail now w =
     filter (\<lambda>d. orderStatus d \<in> {Confirmed, Cancelled} \<and> \<not> emailSent d \<and>
                   createdAt d + 7200000 \<le> now) (orders w)"
  unfolding ordersToEmail_def Let_def
  by (rule filter_cong) auto

lemma orders_fold_sendStatusEmail:
  "distinct (map oid ds) \<Longrightarrow>
   orders (fold (sendStatusEmail e now) ds w) =
     map (\<lambda>x. case find (\<lambda>d. oid d = oid x) ds of
                 None \<Rightarrow> x
               | Some d \<Rightarrow> if validate_doc d then mark_sent now d else x) (orders w)"
proof (induction ds arbitrary: w)
  case Nil
  then show ?case by simp
next
  case (Cons d ds)
  have nf: "find (\<lambda>y. oid y = oid d) ds = None"
    using Cons.prems by (auto simp: find_None_iff image_iff)
  have "orders (fold (sendStatusEmail e now) (d # ds) w) =
        orders (fold (sendStatusEmail e now) ds (sendStatusEmail e now d w))"
    by simp
  also have "\<dots> = map (\<lambda>x. case find (\<lambda>d. oid d = oid x) ds of
                 None \<Rightarrow> x
               | Some d \<Rightarrow> if validate_doc d then mark_sent now d else x)
                 (orders (sendStatusEmail e now d w))"
    using Cons.prems by (intro Cons.IH) simp
  also have "\<dots> = map (\<lambda>x. case find (\<lambda>d. oid d = oid x) (d # ds) of
                 None \<Rightarrow> x
               | Some d \<Rightarrow> if validate_doc d then mark_sent now d else x) (orders w)"
    using nf by (auto simp: orders_sendStatusEmail mark_sent_def)
  finally show ?case .
qed

lemma find_filter_distinct:
  "distinct (map oid xs) \<Longrightarrow> x \<in> set xs \<Longrightarrow>
   find (\<lambda>d. oid d = oid x) (filter P xs) = (if P x then Some x else None)"
  by (induction xs) (auto simp: find_None_iff image_iff)

lemma orders_checkAndSendEmails_gen:
  assumes "distinct (map oid (orders w))"
  shows "orders (checkAndSendEmails e now w) =
     map (\<lambda>d. if d \<in> set (ordersToEmail now w) \<and> validate_doc d then mark_sent now d else d)
       (orders w)"
proof -
  obtain P where fl: "ordersToEmail now w = filter P (orders w)"
    using ordersToEmail_eq by blast
  have d: "distinct (map oid (ordersToEmail now w))"
    unfolding fl using assms by (simp add: distinct_map_filter)
  have "orders (checkAndSendEmails e now w) =
        map (\<lambda>x. case find (\<lambda>d. oid d = oid x) (ordersToEmail now w) of
                 None \<Rightarrow> x
               | Some d \<Rightarrow> if validate_doc d then mark_sent now d else x) (orders w)"
    unfolding checkAndSendEmails_def by (rule orders_fold_sendStatusEmail [OF d])
  also have "\<dots> = map (\<lambda>d. if d \<in> set (ordersToEmail now w) \<and> validate_doc d
                            then mark_sent now d else d) (orders w)"
  proof (rule map_cong [OF refl])
    fix x assume x: "x \<in> set (orders w)"
    have "find (\<lambda>d. oid d = oid x) (ordersToEmail now w) = (if P x then Some x else None)"
      unfolding fl by (rule find_filter_distinct [OF assms x])
    then show "(case find (\<lambda>d. oid d = oid x) (ordersToEmail now w) of
                 None \<Rightarrow> x
               | Some d \<Rightarrow> if validate_doc d then mark_sent now d else x) =
          (if x \<in> set (ordersToEmail now w) \<and> validate_doc x then mark_sent now x else x)"
      using x by (simp add: fl)
  qed
  finally show ?thesis .
qed

section \<open>The collection invariant\<close>

lemma store_ok_map:
  assumes ok: "store_ok w"
    and g: "\<And>x. x \<in> set (orders w) \<Longrightarrow> keeps_core x (g x) \<and> validate_doc (g x)"
    and w': "orders w' = map g (orders w)" "next_id w' = next_id w"
  shows "store_ok w'"
proof -
  have 1: "map oid (map g (orders w)) = map oid (orders w)"
    using g by (simp add: keeps_core_def)
  have 2: "map (\<lambda>d. utr (payment d)) (map g (orders w)) = map (\<lambda>d. utr (payment d)) (orders w)"
    using g by (simp add: keeps_core_def)
  show ?thesis
    using ok g unfolding store_ok_def w' 1 2
    by (simp add: list_all_iff keeps_core_def)
qed

lemma findById_Some:
  "findById i w = Some d \<Longrightarrow> d \<in> set (orders w) \<and> oid d = i"
  by (auto simp: findById_def find_Some_iff)

lemma findById_unique:
  "findById i w = Some d \<Longrightarrow> distinct (map oid (orders w)) \<Longrightarrow> x \<in> set (orders w) \<Longrightarrow>
   oid x = i \<Longrightarrow> x = d"
  using findById_Some [of i w d] by (auto simp: distinct_map inj_on_def)

lemma store_ok_save:
  assumes ok: "store_ok w" and f: "findById i w = Some d" and k: "keeps_core d d'"
    and s: "save d' w = Inr w'"
  shows "store_ok w'"
proof -
  have v: "validate_doc d'" and o: "orders w' = map (\<lambda>x. if oid x = oid d' then d' else x) (orders w)"
    and n: "next_id w' = next_id w"
    using s by (auto simp: save_def split: if_splits)
  have i: "oid d' = i"
    using k findById_Some [OF f] by (simp add: keeps_core_def)
  have dist: "distinct (map oid (orders w))"
    using ok by (simp add: store_ok_def)
  show ?thesis
  proof (rule store_ok_map [OF ok _ o n])
    fix x assume x: "x \<in> set (orders w)"
    show "keeps_core x (if oid x = oid d' then d' else x) \<and>
          validate_doc (if oid x = oid d' then d' else x)"
    proof (cases "oid x = oid d'")
      case True
      then have "x = d" using findById_unique [OF f dist x] i by simp
      then show ?thesis using True k v by simp
    next
      case False
      then show ?thesis using ok x by (simp add: keeps_core_def store_ok_def list_all_iff)
    qed
  qed
qed

lemma store_ok_attempt: "store_ok (attempt e m w) = store_ok w"
  by (simp add: store_ok_def attempt_def)

lemma store_ok_statusmail: "store_ok (sendOrderStatusUpdateEmail e d w) = store_ok w"
  by (simp add: sendOrderStatusUpdateEmail_def store_ok_attempt split: order_status.splits)

lemma keeps_core_assign_decision: "keeps_core d (assign_decision now b v d)"
  by (simp add: keeps_core_def assign_decision_def)

lemma keeps_core_assign_status: "keeps_core d (assign_status now b st d)"
  by (simp add: keeps_core_def assign_status_def Let_def)

lemma store_ok_confirmOrder:
  assumes "store_ok w"
  shows "store_ok (snd (confirmOrder e now i b w))"
proof (cases "findById i w")
  case None
  then show ?thesis using assms by (simp add: confirmOrder_def)
next
  case d: (Some d)
  show ?thesis
  proof (cases "validated_verification (assigned_verification b)")
    case None
    then show ?thesis using assms d by (simp add: confirmOrder_def)
  next
    case v: (Some v)
    show ?thesis
    proof (cases "save (assign_decision now b v d) w")
      case (Inl err)
      then show ?thesis using assms d v by (simp add: confirmOrder_def)
    next
      case (Inr w1)
      have "store_ok w1"
        by (rule store_ok_save [OF assms d keeps_core_assign_decision Inr])
      then show ?thesis
        using d v Inr
        by (simp add: confirmOrder_def store_ok_attempt sendOrderConfirmedEmail_def
            sendOrderCancelledEmail_def)
    qed
  qed
qed

lemma store_ok_updateOrderStatus:
  assumes "store_ok w"
  shows "store_ok (snd (updateOrderStatus e now i b w))"
proof (cases "array_includes validStatuses (update_status b)")
  case False
  then show ?thesis using assms by (simp add: updateOrderStatus_def)
next
  case inc: True
  show ?thesis
  proof (cases "findById i w")
    case None
    then show ?thesis using assms inc by (simp add: updateOrderStatus_def)
  next
    case d: (Some d)
    show ?thesis
    proof (cases "parse_order_status (str (update_status b))")
      case None
      then show ?thesis using assms inc d by (simp add: updateOrderStatus_def)
    next
      case st: (Some st)
      show ?thesis
      proof (cases "save (assign_status now b st d) w")
        case (Inl err)
        then show ?thesis using assms inc d st by (simp add: updateOrderStatus_def)
      next
        case (Inr w1)
        have "store_ok w1"
          by (rule store_ok_save [OF assms d keeps_core_assign_status Inr])
        then show ?thesis
          using inc d st Inr by (simp add: updateOrderStatus_def store_ok_statusmail)
      qed
    qed
  qed
qed

lemma store_ok_checkAndSendEmails:
  assumes "store_ok w"
  shows "store_ok (checkAndSendEmails e now w)"
proof (rule store_ok_map [OF assms])
  show "orders (checkAndSendEmails e now w) =
     map (\<lambda>d. if d \<in> set (ordersToEmail now w) \<and> validate_doc d then mark_sent now d else d)
       (orders w)"
    using assms by (intro orders_checkAndSendEmails_gen) (simp add: store_ok_def)
  show "next_id (checkAndSendEmails e now w) = next_id w"
    by (simp add: checkAndSendEmails_def next_id_fold_sendStatusEmail)
  fix x assume "x \<in> set (orders w)"
  then have "validate_doc x" using assms by (simp add: store_ok_def list_all_iff)
  then show "keeps_core x (if x \<in> set (ordersToEmail now w) \<and> validate_doc x
                 then mark_sent now x else x) \<and>
        validate_doc (if x \<in> set (ordersToEmail now w) \<and> validate_doc x
                 then mark_sent now x else x)"
    by (simp add: keeps_core_def validate_mark_sent) (simp add: mark_sent_def)
qed

lemma store_ok_createOrder:
  assumes "store_ok w"
  shows "store_ok (snd (createOrder e now b w))"
proof -
  have "store_ok w1" if s: "save_new (new_Payment e now (next_id w) b n) w = Inr w1"
    and a: "in_amount b = JNumber EXPECTED_TOTAL" for n w1
  proof -
    let ?d = "new_Payment e now (next_id w) b n"
    have v: "validate_doc ?d" and u: "utr (payment ?d) \<notin> set (map (\<lambda>x. utr (payment x)) (orders w))"
      and o: "orders w1 = orders w @ [?d]" and nx: "next_id w1 = Suc (next_id w)"
      using s by (auto simp: save_new_def split: if_splits)
    have fresh: "oid ?d \<notin> set (map oid (orders w))"
      using assms by (auto simp: store_ok_def list_all_iff new_Payment_def)
    have am: "amount (payment ?d) = 35 \<and> price (bookDetails ?d) = 1 \<and> oid ?d = next_id w"
      using a by (simp add: new_Payment_def number_of_def EXPECTED_TOTAL_def
          FIXED_BOOK_PRICE_def DELIVERY_CHARGE_def)
    show ?thesis
      using assms v u fresh am unfolding store_ok_def o nx
      by (auto simp: list_all_iff less_Suc_eq)
  qed
  then show ?thesis
    using assms
    by (simp add: createOrder_def Let_def store_ok_attempt sendAdminOrderNotification_def
        sendCustomerOrderConfirmation_def split: option.split sum.split)
qed

lemma store_ok_step: "store_ok w \<Longrightarrow> store_ok (step e now r w)"
  by (cases r)
     (simp_all add: step_def store_ok_createOrder store_ok_confirmOrder
        store_ok_updateOrderStatus store_ok_checkAndSendEmails)

lemma reachable_store_ok: "reachable w \<Longrightarrow> store_ok w"
proof (induction rule: reachable.induct)
  case start
  show ?case by (simp add: store_ok_def empty_world_def)
next
  case (after w e now r)
  then show ?case by (simp add: store_ok_step)
qed

section \<open>What each operation does to the collection\<close>

lemma find_map_keeps_oid:
  "(\<And>x. x \<in> set os \<Longrightarrow> oid (g x) = oid x) \<Longrightarrow>
   find (\<lambda>d. oid d = j) (map g os) = map_option g (find (\<lambda>d. oid d = j) os)"
  by (induction os) simp_all

lemma findById_save:
  assumes "save d' w = Inr w'"
  shows "findById j w' = (if j = oid d' then map_option (\<lambda>x. d') (findById j w) else findById j w)"
proof -
  have o: "orders w' = map (\<lambda>x. if oid x = oid d' then d' else x) (orders w)"
    using assms by (auto simp: save_def split: if_splits)
  have "findById j w' = map_option (\<lambda>x. if oid x = oid d' then d' else x) (findById j w)"
    unfolding findById_def o by (rule find_map_keeps_oid) simp
  also have "\<dots> = (if j = oid d' then map_option (\<lambda>x. d') (findById j w) else findById j w)"
    by (cases "findById j w") (auto dest: findById_Some)
  finally show ?thesis .
qed





lemma oid_assign_decision: "oid (assign_decision now b v d) = oid d"
  by (simp add: assign_decision_def)

lemma oid_assign_status: "oid (assign_status now b st d) = oid d"
  by (simp add: assign_status_def Let_def)

text \<open>What a successful and what a failed confirmOrder does.\<close>

lemma confirmOrder_failed:
  "\<not> success (fst (confirmOrder e now i b w)) \<Longrightarrow> snd (confirmOrder e now i b w) = w"
  by (simp add: confirmOrder_def failure_def succeed_def split: option.splits sum.splits)

lemma confirmOrder_succeeded:
  assumes "success (fst (confirmOrder e now i b w))"
  obtains d v w1 where "findById i w = Some d"
    and "validated_verification (assigned_verification b) = Some v"
    and "save (assign_decision now b v d) w = Inr w1"
    and "confirmOrder e now i b w =
           (succeed 200 (if is_verified b then OrderConfirmed else OrderCancelled)
              (assign_decision now b v d),
            attempt e (customer_mail (if is_verified b then OrderConfirmedEmail
                                      else OrderCancelledEmail) (assign_decision now b v d)) w1)"
  using assms
  by (auto simp: confirmOrder_def failure_def sendOrderConfirmedEmail_def
      sendOrderCancelledEmail_def split: option.splits sum.splits if_splits)

lemma updateOrderStatus_failed:
  "\<not> success (fst (updateOrderStatus e now i b w)) \<Longrightarrow> snd (updateOrderStatus e now i b w) = w"
  by (auto simp: updateOrderStatus_def failure_def succeed_def
      split: option.splits sum.splits if_splits)

lemma updateOrderStatus_succeeded:
  assumes "success (fst (updateOrderStatus e now i b w))"
  obtains d st w1 where "findById i w = Some d"
    and "array_includes validStatuses (update_status b)"
    and "parse_order_status (str (update_status b)) = Some st"
    and "save (assign_status now b st d) w = Inr w1"
    and "updateOrderStatus e now i b w =
           (succeed 200 StatusUpdated (assign_status now b st d),
            sendOrderStatusUpdateEmail e (assign_status now b st d) w1)"
  using assms
  by (auto simp: updateOrderStatus_def failure_def split: option.splits sum.splits if_splits)


lemma createOrder_failed:
  "\<not> success (fst (createOrder e now b w)) \<Longrightarrow> snd (createOrder e now b w) = w"
  by (auto simp: createOrder_def failure_def succeed_def Let_def
      split: option.splits sum.splits if_splits)

lemma createOrder_succeeded:
  assumes "success (fst (createOrder e now b w))"
  obtains n d where "all_fields_present b" and "str (in_state b) \<in> set allowedStates"
    and "catalog e (str (in_bookCode b)) = Some n"
    and "in_amount b = JNumber EXPECTED_TOTAL"
    and "findOneByUtr (str (in_utr b)) w = None"
    and "d = new_Payment e now (next_id w) b n"
    and "validate_doc d"
    and "createOrder e now b w =
           (succeed 201 OrderPlaced d,
            sendCustomerOrderConfirmation e d (sendAdminOrderNotification e d
              (w\<lparr>orders := orders w @ [d], next_id := Suc (next_id w)\<rparr>)))"
  using assms
  by (auto simp: createOrder_def failure_def save_new_def Let_def
      split: option.splits sum.splits if_splits)

lemma findById_attempt: "findById i (attempt e m w) = findById i w"
  by (simp add: findById_def attempt_def)

lemma findById_statusmail: "findById i (sendOrderStatusUpdateEmail e d w) = findById i w"
  by (simp add: sendOrderStatusUpdateEmail_def findById_attempt split: order_status.splits)

lemma orders_sweep_reachable:
  assumes "reachable w"
  shows "orders (checkAndSendEmails e now w) =
           map (\<lambda>d. if d \<in> set (ordersToEmail now w) then mark_sent now d else d) (orders w)"
proof -
  have ok: "store_ok w" using assms by (rule reachable_store_ok)
  then have d: "distinct (map oid (orders w))" by (simp add: store_ok_def)
  have v: "\<And>x. x \<in> set (orders w) \<Longrightarrow> validate_doc x"
    using ok by (simp add: store_ok_def list_all_iff)
  show ?thesis
    unfolding orders_checkAndSendEmails_gen [OF d]
    by (rule map_cong [OF refl]) (simp add: v)
qed

lemma outbox_sweep:
  "outbox (checkAndSendEmails e now w) =
     outbox w @ map (\<lambda>d. (decision_mail d, gateway e (decision_mail d))) (ordersToEmail now w)"
proof -
  have "list_all (\<lambda>d. orderStatus d \<in> {Confirmed, Cancelled}) (ordersToEmail now w)"
    by (simp add: ordersToEmail_eq list_all_iff)
  then show ?thesis
    unfolding checkAndSendEmails_def by (rule outbox_fold_sendStatusEmail)
qed

lemma sweep_selects_nothing_after_sweep:
  assumes "reachable w"
  shows "ordersToEmail now2 (checkAndSendEmails e now w) =
           filter (\<lambda>d. d \<notin> set (ordersToEmail now w)) (ordersToEmail now2 w)"
proof -
  let ?g = "\<lambda>d. if d \<in> set (ordersToEmail now w) then mark_sent now d else d"
  let ?P = "\<lambda>now d. orderStatus d \<in> {Confirmed, Cancelled} \<and> \<not> emailSent d \<and>
                   createdAt d + 7200000 \<le> now"
  have "ordersToEmail now2 (checkAndSendEmails e now w) = filter (?P now2) (map ?g (orders w))"
    by (simp only: ordersToEmail_eq orders_sweep_reachable [OF assms])
  also have "\<dots> = map ?g (filter (\<lambda>d. ?P now2 (?g d)) (orders w))"
    by (simp add: filter_map comp_def)
  also have "filter (\<lambda>d. ?P now2 (?g d)) (orders w) =
             filter (\<lambda>d. d \<notin> set (ordersToEmail now w) \<and> ?P now2 d) (orders w)"
    by (rule filter_cong [OF refl]) (simp add: mark_sent_def)
  also have "map ?g \<dots> = filter (\<lambda>d. d \<notin> set (ordersToEmail now w) \<and> ?P now2 d) (orders w)"
    by (rule map_idI) simp
  also have "\<dots> = filter (\<lambda>d. d \<notin> set (ordersToEmail now w)) (ordersToEmail now2 w)"
    by (simp add: ordersToEmail_eq conj_commute)
  finally show ?thesis .
qed

lemma later_sweep_skips_marked:
  assumes "reachable w"
  shows "set (map oid (ordersToEmail now2 (checkAndSendEmails e1 now w))) \<inter>
         set (map oid (ordersToEmail now w)) = {}"
proof -
  have dist: "distinct (map oid (orders w))"
    using reachable_store_ok [OF assms] by (simp add: store_ok_def)
  have sub: "\<And>n. set (ordersToEmail n w) \<subseteq> set (orders w)"
    by (auto simp: ordersToEmail_eq)
  have "oid x \<noteq> oid y"
    if x: "x \<in> set (ordersToEmail now2 (checkAndSendEmails e1 now w))"
      and y: "y \<in> set (ordersToEmail now w)" for x y
  proof
    assume eq: "oid x = oid y"
    from x have xs: "x \<in> set (ordersToEmail now2 w)" and xn: "x \<notin> set (ordersToEmail now w)"
      by (simp_all add: sweep_selects_nothing_after_sweep [OF assms])
    have "x \<in> set (orders w)" "y \<in> set (orders w)"
      using xs y sub by blast+
    then have "x = y"
      using dist eq by (auto simp: distinct_map inj_on_def)
    then show False using xn y by simp
  qed
  then show ?thesis by auto
qed

lemma find_append_Some: "find P xs = Some x \<Longrightarrow> find P (xs @ ys) = Some x"
  by (induction xs) (auto split: if_splits)

lemma findById_append:
  "findById i w = Some d \<Longrightarrow> orders w' = orders w @ ds \<Longrightarrow> findById i w' = Some d"
  by (simp add: findById_def find_append_Some)

lemma emailSent_assign_decision: "emailSent (assign_decision now b v d) = emailSent d"
  by (simp add: assign_decision_def)

lemma emailSent_assign_status: "emailSent (assign_status now b st d) = emailSent d"
  by (simp add: assign_status_def Let_def)

lemma flag_kept_createOrder:
  assumes "findById i w = Some d"
  shows "findById i (snd (createOrder e t b w)) = Some d"
proof (cases "success (fst (createOrder e t b w))")
  case False
  then show ?thesis using assms by (simp add: createOrder_failed)
next
  case True
  then obtain n where "createOrder e t b w =
           (succeed 201 OrderPlaced (new_Payment e t (next_id w) b n),
            sendCustomerOrderConfirmation e (new_Payment e t (next_id w) b n)
              (sendAdminOrderNotification e (new_Payment e t (next_id w) b n)
              (w\<lparr>orders := orders w @ [new_Payment e t (next_id w) b n],
                 next_id := Suc (next_id w)\<rparr>)))"
    by (rule createOrder_succeeded) simp
  then show ?thesis
    using assms
    by (simp add: sendCustomerOrderConfirmation_def sendAdminOrderNotification_def
        findById_attempt findById_append [OF assms])
qed

lemma findById_confirmOrder:
  assumes "findById j w = Some d"
  shows "\<exists>d'. findById j (snd (confirmOrder e t i b w)) = Some d' \<and>
      (d' = d \<or> (\<exists>v. j = i \<and> success (fst (confirmOrder e t i b w)) \<and>
                     validated_verification (assigned_verification b) = Some v \<and>
                     d' = assign_decision t b v d))"
proof (cases "success (fst (confirmOrder e t i b w))")
  case False
  then show ?thesis using assms by (simp add: confirmOrder_failed)
next
  case True
  then obtain d0 v w1 where f: "findById i w = Some d0"
    and p: "validated_verification (assigned_verification b) = Some v"
    and s: "save (assign_decision t b v d0) w = Inr w1"
    and c: "confirmOrder e t i b w =
           (succeed 200 (if is_verified b then OrderConfirmed else OrderCancelled)
              (assign_decision t b v d0),
            attempt e (customer_mail (if is_verified b then OrderConfirmedEmail
                                      else OrderCancelledEmail) (assign_decision t b v d0)) w1)"
    by (rule confirmOrder_succeeded)
  have i: "oid d0 = i" using findById_Some [OF f] by simp
  have "findById j (snd (confirmOrder e t i b w)) = findById j w1"
    by (simp add: c findById_attempt)
  also have "\<dots> = (if j = i then Some (assign_decision t b v d0) else Some d)"
    using assms f by (simp add: findById_save [OF s] oid_assign_decision i)
  finally show ?thesis
    using f assms p True by auto
qed

lemma findById_updateOrderStatus:
  assumes "findById j w = Some d"
  shows "\<exists>d'. findById j (snd (updateOrderStatus e t i b w)) = Some d' \<and>
      (d' = d \<or> (\<exists>st. j = i \<and> success (fst (updateOrderStatus e t i b w)) \<and>
                     parse_order_status (str (update_status b)) = Some st \<and>
                     d' = assign_status t b st d))"
proof (cases "success (fst (updateOrderStatus e t i b w))")
  case False
  then show ?thesis using assms by (simp add: updateOrderStatus_failed)
next
  case True
  then obtain d0 st w1 where f: "findById i w = Some d0"
    and p: "parse_order_status (str (update_status b)) = Some st"
    and s: "save (assign_status t b st d0) w = Inr w1"
    and c: "updateOrderStatus e t i b w =
           (succeed 200 StatusUpdated (assign_status t b st d0),
            sendOrderStatusUpdateEmail e (assign_status t b st d0) w1)"
    by (rule updateOrderStatus_succeeded)
  have i: "oid d0 = i" using findById_Some [OF f] by simp
  have "findById j (snd (updateOrderStatus e t i b w)) = findById j w1"
    by (simp add: c findById_statusmail)
  also have "\<dots> = (if j = i then Some (assign_status t b st d0) else Some d)"
    using assms f by (simp add: findById_save [OF s] oid_assign_status i)
  finally show ?thesis
    using f assms p True by auto
qed

lemma findById_sweep:
  assumes "reachable w" and "findById j w = Some d"
  shows "findById j (checkAndSendEmails e t w) =
           Some (if d \<in> set (ordersToEmail t w) then mark_sent t d else d)"
proof -
  have "findById j (checkAndSendEmails e t w) =
        map_option (\<lambda>d. if d \<in> set (ordersToEmail t w) then mark_sent t d else d) (findById j w)"
    unfolding findById_def orders_sweep_reachable [OF assms(1)]
    by (rule find_map_keeps_oid) (simp add: mark_sent_def)
  then show ?thesis using assms(2) by simp
qed

lemma flag_kept_by_step:
  assumes "reachable w" and "findById i w = Some d" and "emailSent d"
  shows "\<exists>d'. findById i (step e t r w) = Some d' \<and> emailSent d'"
proof (cases r)
  case (PostPayment b)
  then show ?thesis using assms by (simp add: step_def flag_kept_createOrder)
next
  case (PutConfirm j b)
  then show ?thesis
    using findById_confirmOrder [OF assms(2), of e t j b] assms(3)
    by (auto simp: step_def emailSent_assign_decision)
next
  case (PutStatus j b)
  then show ?thesis
    using findById_updateOrderStatus [OF assms(2), of e t j b] assms(3)
    by (auto simp: step_def emailSent_assign_status)
next
  case SchedulerRun
  then show ?thesis
    using assms by (simp add: step_def findById_sweep mark_sent_def)
qed

section \<open>The example run is a run\<close>

lemma reachable_world_two: "reachable world_two"
  unfolding world_two_def world_confirmed_def world_placed_def
  by (intro reachable.intros)

lemma reachable_world_swept: "reachable world_swept"
  unfolding world_swept_def world_two_def world_confirmed_def world_placed_def
  by (intro reachable.intros)



lemma reachable_world_placed: "reachable world_placed"
  unfolding world_placed_def by (intro reachable.intros)

lemma reachable_world_confirmed: "reachable world_confirmed"
  unfolding world_confirmed_def world_placed_def
  by (intro reachable.intros)


section \<open>Properties of the scheduler\<close>

text \<open>
  Claim C3. A run of the scheduler hands one decision message to the mail transport for
  exactly the stored orders that meet the three guards of its query: the order status is
  confirmed or cancelled, \<open>emailSent\<close> is not true, and the order was created at least two
  hours (7200000 ms) before the run; the age is taken from \<open>createdAt\<close>, not from the time
  of the decision. The message is the confirmation for a confirmed order and the
  cancellation for a cancelled one, and nothing else is added to the outbox.
\<close>

theorem sweep_dispatches_exactly_guarded_orders:
  "outbox (checkAndSendEmails e now w) =
     outbox w @
     map (\<lambda>d. (decision_mail d, gateway e (decision_mail d)))
       (filter (\<lambda>d. orderStatus d \<in> {Confirmed, Cancelled} \<and> \<not> emailSent d \<and>
                     createdAt d + 7200000 \<le> now) (orders w))"
proof -
  have "list_all (\<lambda>d. orderStatus d \<in> {Confirmed, Cancelled}) (ordersToEmail now w)"
    by (simp add: ordersToEmail_eq list_all_iff)
  then have "outbox (checkAndSendEmails e now w) =
      outbox w @ map (\<lambda>d. (decision_mail d, gateway e (decision_mail d))) (ordersToEmail now w)"
    unfolding checkAndSendEmails_def by (rule outbox_fold_sendStatusEmail)
  then show ?thesis by (simp only: ordersToEmail_eq)
qed

text \<open>
  The order of the example run was created at 1000 and confirmed at 2000, with a
  transport that throws. A run at 7201000, two hours after creation but less than two
  hours after the decision, attempts the confirmation; a run one millisecond earlier
  attempts nothing.
\<close>

theorem sweep_dispatches_exactly_guarded_orders_witness:
  "outbox (checkAndSendEmails shop_offline 7201000 world_confirmed_offline) =
     outbox world_confirmed_offline @
     [(\<lparr>kind = SchedulerConfirmedEmail, recipient = ''ravi@example.com'', about = 0\<rparr>, False)]
   \<and> outbox (checkAndSendEmails shop_offline 7200999 world_confirmed_offline) =
       outbox world_confirmed_offline"
proof -
  have a: "map (\<lambda>d. (decision_mail d, gateway shop_offline (decision_mail d)))
       (filter (\<lambda>d. orderStatus d \<in> {Confirmed, Cancelled} \<and> \<not> emailSent d \<and>
                     createdAt d + 7200000 \<le> 7201000) (orders world_confirmed_offline)) =
     [(\<lparr>kind = SchedulerConfirmedEmail, recipient = ''ravi@example.com'', about = 0\<rparr>, False)]"
    by code_simp
  have b: "map (\<lambda>d. (decision_mail d, gateway shop_offline (decision_mail d)))
       (filter (\<lambda>d. orderStatus d \<in> {Confirmed, Cancelled} \<and> \<not> emailSent d \<and>
                     createdAt d + 7200000 \<le> 7200999) (orders world_confirmed_offline)) = []"
    by code_simp
  show ?thesis
    using sweep_dispatches_exactly_guarded_orders
        [of shop_offline 7201000 world_confirmed_offline]
      sweep_dispatches_exactly_guarded_orders
        [of shop_offline 7200999 world_confirmed_offline]
    by (simp only: a b append_Nil2 simp_thms)
qed

text \<open>
  Claim C4. In every world the system can reach, a run of the scheduler sets
  \<open>emailSent\<close> to true and stamps \<open>emailSentDate\<close> on every order its query selected,
  and changes no other order. The result does not depend on the transport: the outcome
  \<open>gateway e m\<close> of each send, delivered or thrown, appears only in the outbox. A send
  that throws does not end the run: every selected order gets its attempt, in the order
  of the query.
\<close>

theorem sweep_marks_every_selected_order:
  assumes "reachable w"
  shows "orders (checkAndSendEmails e now w) =
           map (\<lambda>d. if d \<in> set (ordersToEmail now w) then mark_sent now d else d) (orders w)
       \<and> orders (checkAndSendEmails e' now w) = orders (checkAndSendEmails e now w)
       \<and> outbox (checkAndSendEmails e now w) =
           outbox w @
           map (\<lambda>d. (decision_mail d, gateway e (decision_mail d))) (ordersToEmail now w)"
  using orders_sweep_reachable [OF assms] outbox_sweep by simp

text \<open>
  With a transport that throws on every message, both decided orders of \<open>world_two\<close>
  are attempted and both are marked as sent.
\<close>

theorem sweep_marks_every_selected_order_witness:
  "reachable world_two \<and>
   map (\<lambda>d. (oid d, emailSent d, emailSentDate d))
     (orders (checkAndSendEmails shop_offline 8000000 world_two)) =
     [(0, True, Some 8000000), (1, True, Some 8000000)] \<and>
   map (\<lambda>(m, ok). (kind m, about m, ok))
     (drop (length (outbox world_two))
        (outbox (checkAndSendEmails shop_offline 8000000 world_two))) =
     [(SchedulerConfirmedEmail, 0, False), (SchedulerCancelledEmail, 1, False)]"
proof -
  note th = sweep_marks_every_selected_order
    [OF reachable_world_two, of shop_offline 8000000 shop]
  have a: "map (\<lambda>d. (oid d, emailSent d, emailSentDate d))
        (map (\<lambda>d. if d \<in> set (ordersToEmail 8000000 world_two)
                   then mark_sent 8000000 d else d) (orders world_two)) =
      [(0, True, Some 8000000), (1, True, Some 8000000)]"
    by code_simp
  have b: "map (\<lambda>(m, ok). (kind m, about m, ok))
        (map (\<lambda>d. (decision_mail d, gateway shop_offline (decision_mail d)))
           (ordersToEmail 8000000 world_two)) =
      [(SchedulerConfirmedEmail, 0, False), (SchedulerCancelledEmail, 1, False)]"
    by code_simp
  show ?thesis
    using th a b reachable_world_two by simp
qed

text \<open>
  Claim C5. In every world the system can reach, a second run of the scheduler right
  after the first (at the same time) selects no order and sends nothing: after both
  runs the outbox holds the messages of the first run only, one for each order the first
  run selected, and these orders have pairwise different identifiers. A later run, at
  any time, selects no order with the identifier of an order the first run selected. No request and no run of
  the scheduler resets the flag: an order whose \<open>emailSent\<close> is true still has it true
  after any step.
\<close>

theorem sweep_twice_sends_once:
  assumes "reachable w"
  shows "ordersToEmail now (checkAndSendEmails e1 now w) = []
       \<and> outbox (checkAndSendEmails e2 now (checkAndSendEmails e1 now w)) =
           outbox w @
           map (\<lambda>d. (decision_mail d, gateway e1 (decision_mail d))) (ordersToEmail now w)
       \<and> distinct (map oid (ordersToEmail now w))
       \<and> (\<forall>now2. set (map oid (ordersToEmail now2 (checkAndSendEmails e1 now w))) \<inter>
                   set (map oid (ordersToEmail now w)) = {})
       \<and> (\<forall>e t r i d. findById i w = Some d \<and> emailSent d \<longrightarrow>
             (\<exists>d'. findById i (step e t r w) = Some d' \<and> emailSent d'))"
proof -
  have 1: "ordersToEmail now (checkAndSendEmails e1 now w) = []"
    by (simp add: sweep_selects_nothing_after_sweep [OF assms])
  have 2: "outbox (checkAndSendEmails e2 now (checkAndSendEmails e1 now w)) =
           outbox w @
           map (\<lambda>d. (decision_mail d, gateway e1 (decision_mail d))) (ordersToEmail now w)"
    by (simp add: outbox_sweep [of e2] 1) (simp add: outbox_sweep)
  have "distinct (map oid (orders w))"
    using reachable_store_ok [OF assms] by (simp add: store_ok_def)
  then have 3: "distinct (map oid (ordersToEmail now w))"
    by (simp add: ordersToEmail_eq distinct_map_filter)
  have 4: "\<forall>now2. set (map oid (ordersToEmail now2 (checkAndSendEmails e1 now w))) \<inter>
                   set (map oid (ordersToEmail now w)) = {}"
    using later_sweep_skips_marked [OF assms] by blast
  have 5: "\<forall>e t r i d. findById i w = Some d \<and> emailSent d \<longrightarrow>
             (\<exists>d'. findById i (step e t r w) = Some d' \<and> emailSent d')"
    using flag_kept_by_step [OF assms] by blast
  show ?thesis using 1 2 3 4 5 by blast
qed

theorem sweep_twice_sends_once_witness:
  "reachable world_two \<and>
   ordersToEmail 8000000 (checkAndSendEmails shop 8000000 world_two) = [] \<and>
   map (\<lambda>(m, ok). (kind m, about m))
     (drop (length (outbox world_two))
        (outbox (checkAndSendEmails shop 8000000 (checkAndSendEmails shop 8000000 world_two)))) =
     [(SchedulerConfirmedEmail, 0), (SchedulerCancelledEmail, 1)] \<and>
   reachable world_swept \<and>
   findById 0 world_swept = Some (hd (orders world_swept)) \<and>
   emailSent (hd (orders world_swept)) \<and>
   (\<exists>d'. findById 0 (step shop 9000000 (PutConfirm 0 reject_body) world_swept) = Some d' \<and>
         emailSent d')"
proof -
  note th = sweep_twice_sends_once [OF reachable_world_two, of 8000000 shop shop]
  note th2 = sweep_twice_sends_once [OF reachable_world_swept, of 8000000 shop shop]
  have b: "map (\<lambda>(m, ok). (kind m, about m))
        (map (\<lambda>d. (decision_mail d, gateway shop (decision_mail d)))
           (ordersToEmail 8000000 world_two)) =
      [(SchedulerConfirmedEmail, 0), (SchedulerCancelledEmail, 1)]"
    by code_simp
  have h: "findById 0 world_swept = Some (hd (orders world_swept)) \<and>
           emailSent (hd (orders world_swept))"
    by code_simp
  have k: "\<exists>d'. findById 0 (step shop 9000000 (PutConfirm 0 reject_body) world_swept) = Some d' \<and>
         emailSent d'"
    using th2 h by blast
  show ?thesis
    using th b h k reachable_world_two reachable_world_swept by simp
qed

section \<open>Properties of the order lifecycle\<close>

lemma dates_assign_decision:
  "shippedDate (assign_decision now cb v d) = shippedDate d \<and>
   deliveredDate (assign_decision now cb v d) = deliveredDate d \<and>
   confirmedDate (assign_decision now cb v d) = (if is_verified cb then Some now else None)"
  by (simp add: assign_decision_def)

lemma dates_assign_status:
  "confirmedDate (assign_status now b st d) = confirmedDate d \<and>
   shippedDate (assign_status now b st d) =
     (if st = Shipped \<and> shippedDate d = None then Some now else shippedDate d) \<and>
   deliveredDate (assign_status now b st d) =
     (if st = Delivered \<and> deliveredDate d = None then Some now else deliveredDate d)"
  by (simp add: assign_status_def Let_def)

text \<open>
  Claim C1, as the code has it. \<open>shippedDate\<close> and \<open>deliveredDate\<close> are set at most
  once: \<open>updateOrderStatus\<close> sets them to now only when the request succeeds, the new
  status is shipped (delivered) and the date is still unset, and neither
  \<open>updateOrderStatus\<close> nor \<open>confirmOrder\<close> changes or clears them otherwise.
  \<open>confirmedDate\<close> is different: every successful \<open>confirmOrder\<close> writes it, to now
  when the request's verification status is "verified", whether or not it was set
  before, and to null otherwise; \<open>updateOrderStatus\<close> never changes it. Orders other
  than the addressed one keep all three dates.
\<close>

theorem lifecycle_timestamps:
  assumes "findById j w = Some d"
  shows "(\<exists>d'. findById j (snd (updateOrderStatus e now i b w)) = Some d' \<and>
            confirmedDate d' = confirmedDate d \<and>
            shippedDate d' =
              (if success (fst (updateOrderStatus e now i b w)) \<and> j = i \<and>
                  update_status b = Some ''shipped'' \<and> shippedDate d = None
               then Some now else shippedDate d) \<and>
            deliveredDate d' =
              (if success (fst (updateOrderStatus e now i b w)) \<and> j = i \<and>
                  update_status b = Some ''delivered'' \<and> deliveredDate d = None
               then Some now else deliveredDate d))
       \<and> (\<exists>d'. findById j (snd (confirmOrder e now i cb w)) = Some d' \<and>
            shippedDate d' = shippedDate d \<and> deliveredDate d' = deliveredDate d \<and>
            confirmedDate d' =
              (if success (fst (confirmOrder e now i cb w)) \<and> j = i
               then (if confirm_verificationStatus cb = JString ''verified'' then Some now else None)
               else confirmedDate d))"
proof -
  have sh: "parse_order_status (str (update_status b)) = Some st \<Longrightarrow>
     array_includes validStatuses (update_status b) \<Longrightarrow>
     (st = Shipped) = (update_status b = Some ''shipped'') \<and>
     (st = Delivered) = (update_status b = Some ''delivered'')" for st
    by (cases "update_status b")
       (auto simp: parse_order_status_def str_def array_includes_def split: if_splits)
  have u: "\<exists>d'. findById j (snd (updateOrderStatus e now i b w)) = Some d' \<and>
            confirmedDate d' = confirmedDate d \<and>
            shippedDate d' =
              (if success (fst (updateOrderStatus e now i b w)) \<and> j = i \<and>
                  update_status b = Some ''shipped'' \<and> shippedDate d = None
               then Some now else shippedDate d) \<and>
            deliveredDate d' =
              (if success (fst (updateOrderStatus e now i b w)) \<and> j = i \<and>
                  update_status b = Some ''delivered'' \<and> deliveredDate d = None
               then Some now else deliveredDate d)"
  proof (cases "success (fst (updateOrderStatus e now i b w))")
    case False
    then show ?thesis using assms by (simp add: updateOrderStatus_failed)
  next
    case True
    then obtain d0 st w1 where f: "findById i w = Some d0"
      and inc: "array_includes validStatuses (update_status b)"
      and p: "parse_order_status (str (update_status b)) = Some st"
      and s: "save (assign_status now b st d0) w = Inr w1"
      and c: "updateOrderStatus e now i b w =
           (succeed 200 StatusUpdated (assign_status now b st d0),
            sendOrderStatusUpdateEmail e (assign_status now b st d0) w1)"
      by (rule updateOrderStatus_succeeded)
    have i: "oid d0 = i" using findById_Some [OF f] by simp
    have "findById j (snd (updateOrderStatus e now i b w)) = findById j w1"
      by (simp add: c findById_statusmail)
    also have "\<dots> = (if j = i then Some (assign_status now b st d0) else Some d)"
      using assms f by (simp add: findById_save [OF s] oid_assign_status i)
    finally have r: "findById j (snd (updateOrderStatus e now i b w)) =
        (if j = i then Some (assign_status now b st d) else Some d)"
      using f assms by auto
    show ?thesis
      using True sh [OF p inc] by (simp add: r dates_assign_status)
  qed
  have c: "\<exists>d'. findById j (snd (confirmOrder e now i cb w)) = Some d' \<and>
            shippedDate d' = shippedDate d \<and> deliveredDate d' = deliveredDate d \<and>
            confirmedDate d' =
              (if success (fst (confirmOrder e now i cb w)) \<and> j = i
               then (if confirm_verificationStatus cb = JString ''verified'' then Some now else None)
               else confirmedDate d)"
  proof (cases "success (fst (confirmOrder e now i cb w))")
    case False
    then show ?thesis using assms by (simp add: confirmOrder_failed)
  next
    case True
    then obtain d0 v w1 where f: "findById i w = Some d0"
      and s: "save (assign_decision now cb v d0) w = Inr w1"
      and co: "confirmOrder e now i cb w =
           (succeed 200 (if is_verified cb then OrderConfirmed else OrderCancelled)
              (assign_decision now cb v d0),
            attempt e (customer_mail (if is_verified cb then OrderConfirmedEmail
                                      else OrderCancelledEmail) (assign_decision now cb v d0)) w1)"
      by (rule confirmOrder_succeeded)
    have i: "oid d0 = i" using findById_Some [OF f] by simp
    have "findById j (snd (confirmOrder e now i cb w)) = findById j w1"
      by (simp add: co findById_attempt)
    also have "\<dots> = (if j = i then Some (assign_decision now cb v d0) else Some d)"
      using assms f by (simp add: findById_save [OF s] oid_assign_decision i)
    finally have r: "findById j (snd (confirmOrder e now i cb w)) =
        (if j = i then Some (assign_decision now cb v d) else Some d)"
      using f assms by auto
    show ?thesis
      using True by (simp add: r dates_assign_decision is_verified_def)
  qed
  show ?thesis using u c by (rule conjI)
qed

text \<open>
  The delivered order of the example run: shipping it again keeps its three dates;
  verifying it again moves \<open>confirmedDate\<close> from 2000 to 9000.
\<close>

theorem lifecycle_timestamps_witness:
  "findById 0 world_delivered = Some (hd (orders world_delivered)) \<and>
   (\<exists>d'. findById 0 (snd (updateOrderStatus shop 9000 0 (to_status ''shipped'') world_delivered))
            = Some d' \<and>
         confirmedDate d' = Some 2000 \<and> shippedDate d' = Some 3000 \<and>
         deliveredDate d' = Some 4000) \<and>
   (\<exists>d'. findById 0 (snd (confirmOrder shop 9000 0 verify_body world_delivered)) = Some d' \<and>
         shippedDate d' = Some 3000 \<and> deliveredDate d' = Some 4000 \<and>
         confirmedDate d' = Some 9000)"
proof -
  have h: "findById 0 world_delivered = Some (hd (orders world_delivered))"
    by code_simp
  have s1: "success (fst (updateOrderStatus shop 9000 0 (to_status ''shipped'') world_delivered))"
    by code_simp
  have s2: "success (fst (confirmOrder shop 9000 0 verify_body world_delivered))"
    by code_simp
  have d: "confirmedDate (hd (orders world_delivered)) = Some 2000 \<and>
           shippedDate (hd (orders world_delivered)) = Some 3000 \<and>
           deliveredDate (hd (orders world_delivered)) = Some 4000"
    by code_simp
  have b: "update_status (to_status ''shipped'') = Some ''shipped'' \<and>
           confirm_verificationStatus verify_body = JString ''verified''"
    by (simp add: to_status_def verify_body_def)
  show ?thesis
    using lifecycle_timestamps [OF h, of shop 9000 0 "to_status ''shipped''" verify_body]
      h s1 s2 d b
    by simp
qed

text \<open>
  Against C1 as stated: the confirmed order has \<open>confirmedDate\<close> 2000; a second
  verification at 9000 overwrites it, and a rejection clears it.
\<close>

theorem lifecycle_timestamps_counterexample:
  "map confirmedDate (orders world_confirmed) = [Some 2000] \<and>
   map confirmedDate (orders (snd (confirmOrder shop 9000 0 verify_body world_confirmed))) =
     [Some 9000] \<and>
   map confirmedDate (orders (snd (confirmOrder shop 9000 0 reject_body world_confirmed))) =
     [None]"
  by code_simp
























section \<open>Properties of order creation\<close>

lemma new_Payment_invalid:
  assumes "\<not> digits_exactly 10 (str (in_mobile b)) \<or> \<not> digits_exactly 6 (str (in_pincode b)) \<or>
           \<not> digits_exactly 12 (str (in_utr b))"
  shows "\<not> validate_doc (new_Payment e now i b n)"
  using assms
  by (auto simp: validate_doc_def validate_address_def validate_payment_def new_Payment_def)

lemma createOrder_status:
  "status (fst (createOrder e now b w)) \<in> {201, 400, 404, 500} \<and>
   (success (fst (createOrder e now b w)) = (status (fst (createOrder e now b w)) = 201))"
  by (simp add: createOrder_def failure_def succeed_def Let_def split: option.split sum.split)

lemma createOrder_past_checks:
  assumes "all_fields_present b" and "str (in_state b) \<in> set allowedStates"
    and "catalog e (str (in_bookCode b)) = Some n" and "in_amount b = JNumber 35"
    and "findOneByUtr (str (in_utr b)) w = None"
  shows "createOrder e now b w =
     (case save_new (new_Payment e now (next_id w) b n) w of
        Inl err \<Rightarrow> (failure 500 FailedToCreateOrder, w)
      | Inr w1 \<Rightarrow>
          (succeed 201 OrderPlaced (new_Payment e now (next_id w) b n),
           sendCustomerOrderConfirmation e (new_Payment e now (next_id w) b n)
             (sendAdminOrderNotification e (new_Payment e now (next_id w) b n) w1)))"
  using assms
  by (simp add: createOrder_def Let_def EXPECTED_TOTAL_def FIXED_BOOK_PRICE_def
      DELIVERY_CHARGE_def split: sum.split)

text \<open>
  Claim C7, as the code has it. When the mobile number is not exactly 10 digits, or the
  pincode not exactly 6 digits, or the UTR not exactly 12 digits (an absent field
  included), \<open>createOrder\<close> fails and leaves the world as it was: no order is stored
  and no message is sent. The reply is 400, 404 or 500. The controller itself does not
  look at the three formats; only the schema does, when the document is saved, and the
  controller reports that as 500 "Failed to create order": this is the reply whenever
  the controller's own checks (all fields present, state allowed, book found, amount 35,
  UTR unused) pass.
\<close>

theorem malformed_digits_never_stored:
  assumes "\<not> digits_exactly 10 (str (in_mobile b)) \<or> \<not> digits_exactly 6 (str (in_pincode b)) \<or>
           \<not> digits_exactly 12 (str (in_utr b))"
  shows "snd (createOrder e now b w) = w \<and>
         \<not> success (fst (createOrder e now b w)) \<and>
         status (fst (createOrder e now b w)) \<in> {400, 404, 500} \<and>
         (all_fields_present b \<and> str (in_state b) \<in> set allowedStates \<and>
          catalog e (str (in_bookCode b)) \<noteq> None \<and> in_amount b = JNumber 35 \<and>
          findOneByUtr (str (in_utr b)) w = None \<longrightarrow>
            fst (createOrder e now b w) = failure 500 FailedToCreateOrder)"
proof -
  have ns: "\<not> success (fst (createOrder e now b w))"
  proof
    assume "success (fst (createOrder e now b w))"
    then obtain n where "validate_doc (new_Payment e now (next_id w) b n)"
      by (rule createOrder_succeeded) simp
    then show False using new_Payment_invalid [OF assms] by simp
  qed
  have st: "status (fst (createOrder e now b w)) \<in> {400, 404, 500}"
    using createOrder_status [of e now b w] ns by auto
  have f5: "fst (createOrder e now b w) = failure 500 FailedToCreateOrder"
    if "all_fields_present b \<and> str (in_state b) \<in> set allowedStates \<and>
          catalog e (str (in_bookCode b)) \<noteq> None \<and> in_amount b = JNumber 35 \<and>
          findOneByUtr (str (in_utr b)) w = None"
  proof -
    from that obtain n where n: "catalog e (str (in_bookCode b)) = Some n" by auto
    have "save_new (new_Payment e now (next_id w) b n) w = Inl ValidationError"
      using new_Payment_invalid [OF assms] by (simp add: save_new_def)
    then show ?thesis
      using that n by (simp add: createOrder_past_checks [of b e n w now])
  qed
  show ?thesis
    using ns st f5 createOrder_failed [OF ns] by blast
qed

theorem malformed_digits_never_stored_witness:
  "\<not> digits_exactly 6 (str (in_pincode (ravi\<lparr>in_pincode := Some ''5000''\<rparr>))) \<and>
   snd (createOrder shop 1000 (ravi\<lparr>in_pincode := Some ''5000''\<rparr>) empty_world) = empty_world \<and>
   fst (createOrder shop 1000 (ravi\<lparr>in_pincode := Some ''5000''\<rparr>) empty_world) =
     failure 500 FailedToCreateOrder"
proof -
  have h: "\<not> digits_exactly 6 (str (in_pincode (ravi\<lparr>in_pincode := Some ''5000''\<rparr>)))"
    by code_simp
  have c: "all_fields_present (ravi\<lparr>in_pincode := Some ''5000''\<rparr>) \<and>
       str (in_state (ravi\<lparr>in_pincode := Some ''5000''\<rparr>)) \<in> set allowedStates \<and>
       catalog shop (str (in_bookCode (ravi\<lparr>in_pincode := Some ''5000''\<rparr>))) \<noteq> None \<and>
       in_amount (ravi\<lparr>in_pincode := Some ''5000''\<rparr>) = JNumber 35 \<and>
       findOneByUtr (str (in_utr (ravi\<lparr>in_pincode := Some ''5000''\<rparr>))) empty_world = None"
    by code_simp
  show ?thesis
    using malformed_digits_never_stored [of "ravi\<lparr>in_pincode := Some ''5000''\<rparr>" shop 1000
        empty_world] h c
    by blast
qed

text \<open>
  Against C7 as stated: an otherwise valid request with a 5-digit mobile number, with a
  letter in the UTR, or with a 7-digit pincode is answered with 500, not 400.
\<close>

theorem malformed_digits_never_stored_counterexample:
  "\<not> digits_exactly 10 ''12345'' \<and>
   fst (createOrder shop 1000 (ravi\<lparr>in_mobile := Some ''12345''\<rparr>) empty_world) =
     failure 500 FailedToCreateOrder \<and>
   fst (createOrder shop 1000 (ravi\<lparr>in_utr := Some ''12345678901x''\<rparr>) empty_world) =
     failure 500 FailedToCreateOrder \<and>
   fst (createOrder shop 1000 (ravi\<lparr>in_pincode := Some ''5000841''\<rparr>) empty_world) =
     failure 500 FailedToCreateOrder"
  by code_simp

lemma createOrder_price_mismatch:
  assumes "in_amount b \<noteq> JNumber 35"
  shows "fst (createOrder e now b w) =
     (if \<not> all_fields_present b then failure 400 AllFieldsRequired
      else if str (in_state b) \<notin> set allowedStates then failure 400 OnlyDeliverTo
      else if catalog e (str (in_bookCode b)) = None then failure 404 BookNotFound
      else failure 400 PriceMismatch)"
  using assms
  by (simp add: createOrder_def EXPECTED_TOTAL_def FIXED_BOOK_PRICE_def
      DELIVERY_CHARGE_def split: option.split)

lemma createOrder_stores_fixed_total:
  assumes "success (fst (createOrder e now b w))"
  shows "\<exists>d. fst (createOrder e now b w) = succeed 201 OrderPlaced d \<and>
              orders (snd (createOrder e now b w)) = orders w @ [d] \<and>
              price (bookDetails d) = 1 \<and> amount (payment d) = 35 \<and>
              orderStatus d = Pending \<and> verificationStatus (payment d) = VPending"
proof -
  obtain n where a: "in_amount b = JNumber EXPECTED_TOTAL"
    and c: "createOrder e now b w =
           (succeed 201 OrderPlaced (new_Payment e now (next_id w) b n),
            sendCustomerOrderConfirmation e (new_Payment e now (next_id w) b n)
              (sendAdminOrderNotification e (new_Payment e now (next_id w) b n)
              (w\<lparr>orders := orders w @ [new_Payment e now (next_id w) b n],
                 next_id := Suc (next_id w)\<rparr>)))"
    using assms by (rule createOrder_succeeded) simp
  have "price (bookDetails (new_Payment e now (next_id w) b n)) = 1 \<and>
        amount (payment (new_Payment e now (next_id w) b n)) = 35 \<and>
        orderStatus (new_Payment e now (next_id w) b n) = Pending \<and>
        verificationStatus (payment (new_Payment e now (next_id w) b n)) = VPending"
    using a by (simp add: new_Payment_def number_of_def EXPECTED_TOTAL_def
        FIXED_BOOK_PRICE_def DELIVERY_CHARGE_def)
  then show ?thesis
    by (simp add: c sendCustomerOrderConfirmation_def sendAdminOrderNotification_def
        orders_attempt)
qed

text \<open>
  Claim C8, as the code has it. When the amount is not the number 35, \<open>createOrder\<close>
  fails and leaves the world as it was, and the reply is that of the first check that
  fails, in the controller's order: 400 "All fields are required" when a field is
  missing or falsy (an amount of 0 included), else 400 for a state outside the list,
  else 404 for an unknown book, else the 400 price-mismatch rejection. A successful
  \<open>createOrder\<close> stores one new order with book price 1 and amount 35, and in every
  reachable world every stored order has book price 1 and amount 35.
\<close>

theorem amount_is_the_fixed_total:
  "(in_amount b \<noteq> JNumber 35 \<longrightarrow>
      snd (createOrder e now b w) = w \<and> \<not> success (fst (createOrder e now b w)) \<and>
      fst (createOrder e now b w) =
        (if \<not> all_fields_present b then failure 400 AllFieldsRequired
         else if str (in_state b) \<notin> set allowedStates then failure 400 OnlyDeliverTo
         else if catalog e (str (in_bookCode b)) = None then failure 404 BookNotFound
         else failure 400 PriceMismatch)) \<and>
   (success (fst (createOrder e now b w)) \<longrightarrow>
      (\<exists>d. fst (createOrder e now b w) = succeed 201 OrderPlaced d \<and>
            orders (snd (createOrder e now b w)) = orders w @ [d] \<and>
            price (bookDetails d) = 1 \<and> amount (payment d) = 35)) \<and>
   (reachable w \<longrightarrow>
      (\<forall>d \<in> set (orders w). price (bookDetails d) = 1 \<and> amount (payment d) = 35))"
proof -
  have A: "in_amount b \<noteq> JNumber 35 \<longrightarrow>
      snd (createOrder e now b w) = w \<and> \<not> success (fst (createOrder e now b w)) \<and>
      fst (createOrder e now b w) =
        (if \<not> all_fields_present b then failure 400 AllFieldsRequired
         else if str (in_state b) \<notin> set allowedStates then failure 400 OnlyDeliverTo
         else if catalog e (str (in_bookCode b)) = None then failure 404 BookNotFound
         else failure 400 PriceMismatch)"
  proof
    assume a: "in_amount b \<noteq> JNumber 35"
    note r = createOrder_price_mismatch [OF a, of e now w]
    have ns: "\<not> success (fst (createOrder e now b w))"
      unfolding r by (simp add: failure_def)
    show "snd (createOrder e now b w) = w \<and> \<not> success (fst (createOrder e now b w)) \<and>
      fst (createOrder e now b w) =
        (if \<not> all_fields_present b then failure 400 AllFieldsRequired
         else if str (in_state b) \<notin> set allowedStates then failure 400 OnlyDeliverTo
         else if catalog e (str (in_bookCode b)) = None then failure 404 BookNotFound
         else failure 400 PriceMismatch)"
      using ns createOrder_failed [OF ns] r by blast
  qed
  have B: "success (fst (createOrder e now b w)) \<longrightarrow>
      (\<exists>d. fst (createOrder e now b w) = succeed 201 OrderPlaced d \<and>
            orders (snd (createOrder e now b w)) = orders w @ [d] \<and>
            price (bookDetails d) = 1 \<and> amount (payment d) = 35)"
    using createOrder_stores_fixed_total [of e now b w] by blast
  have C: "reachable w \<longrightarrow>
      (\<forall>d \<in> set (orders w). price (bookDetails d) = 1 \<and> amount (payment d) = 35)"
    using reachable_store_ok [of w] by (simp add: store_ok_def list_all_iff)
  show ?thesis by (rule conjI [OF A conjI [OF B C]])
qed

text \<open>
  A request with the string "35" as amount is a price mismatch; one with amount 0 is
  answered "All fields are required"; the request of the example run succeeds.
\<close>

theorem amount_is_the_fixed_total_witness:
  "in_amount (ravi\<lparr>in_amount := JString ''35''\<rparr>) \<noteq> JNumber 35 \<and>
   fst (createOrder shop_offline 1000 (ravi\<lparr>in_amount := JString ''35''\<rparr>) empty_world) =
     failure 400 PriceMismatch \<and>
   snd (createOrder shop_offline 1000 (ravi\<lparr>in_amount := JString ''35''\<rparr>) empty_world) =
     empty_world \<and>
   in_amount (ravi\<lparr>in_amount := JNumber 0\<rparr>) \<noteq> JNumber 35 \<and>
   fst (createOrder shop_offline 1000 (ravi\<lparr>in_amount := JNumber 0\<rparr>) empty_world) =
     failure 400 AllFieldsRequired \<and>
   success (fst (createOrder shop_offline 1000 ravi empty_world)) \<and>
   (\<exists>d. orders (snd (createOrder shop_offline 1000 ravi empty_world)) =
          orders empty_world @ [d] \<and>
        price (bookDetails d) = 1 \<and> amount (payment d) = 35) \<and>
   reachable world_two \<and>
   price (bookDetails (last (orders world_two))) = 1 \<and>
   amount (payment (last (orders world_two))) = 35"
proof -
  have a: "in_amount (ravi\<lparr>in_amount := JString ''35''\<rparr>) \<noteq> JNumber 35"
    by simp
  have a0: "in_amount (ravi\<lparr>in_amount := JNumber 0\<rparr>) \<noteq> JNumber 35"
    by simp
  have l: "last (orders world_two) \<in> set (orders world_two)"
    by code_simp
  have c: "(if \<not> all_fields_present (ravi\<lparr>in_amount := JString ''35''\<rparr>)
            then failure 400 AllFieldsRequired
            else if str (in_state (ravi\<lparr>in_amount := JString ''35''\<rparr>)) \<notin> set allowedStates
            then failure 400 OnlyDeliverTo
            else if catalog shop_offline
                      (str (in_bookCode (ravi\<lparr>in_amount := JString ''35''\<rparr>))) = None
            then failure 404 BookNotFound
            else failure 400 PriceMismatch) = failure 400 PriceMismatch"
    by code_simp
  have c0: "(if \<not> all_fields_present (ravi\<lparr>in_amount := JNumber 0\<rparr>)
            then failure 400 AllFieldsRequired
            else if str (in_state (ravi\<lparr>in_amount := JNumber 0\<rparr>)) \<notin> set allowedStates
            then failure 400 OnlyDeliverTo
            else if catalog shop_offline
                      (str (in_bookCode (ravi\<lparr>in_amount := JNumber 0\<rparr>))) = None
            then failure 404 BookNotFound
            else failure 400 PriceMismatch) = failure 400 AllFieldsRequired"
    by code_simp
  have s: "success (fst (createOrder shop_offline 1000 ravi empty_world))"
    by code_simp
  have p1: "fst (createOrder shop_offline 1000 (ravi\<lparr>in_amount := JString ''35''\<rparr>)
                   empty_world) = failure 400 PriceMismatch \<and>
            snd (createOrder shop_offline 1000 (ravi\<lparr>in_amount := JString ''35''\<rparr>)
                   empty_world) = empty_world"
    using amount_is_the_fixed_total
        [of "ravi\<lparr>in_amount := JString ''35''\<rparr>" shop_offline 1000 empty_world] a
    unfolding c by blast
  have p0: "fst (createOrder shop_offline 1000 (ravi\<lparr>in_amount := JNumber 0\<rparr>) empty_world) =
              failure 400 AllFieldsRequired"
    using amount_is_the_fixed_total
        [of "ravi\<lparr>in_amount := JNumber 0\<rparr>" shop_offline 1000 empty_world] a0
    unfolding c0 by blast
  show ?thesis
    using amount_is_the_fixed_total [of ravi shop_offline 1000 empty_world]
      amount_is_the_fixed_total [of ravi shop_offline 1000 world_two]
      a a0 p1 p0 s l reachable_world_two
    by blast
qed

text \<open>
  Against C8 as stated: with amount 0 the reply is "All fields are required"; with
  amount 36 and a state outside the list, or an unknown book, the reply is that of the
  earlier check, not the price mismatch.
\<close>

theorem amount_is_the_fixed_total_counterexample:
  "fst (createOrder shop_offline 1000 (ravi\<lparr>in_amount := JNumber 0\<rparr>) empty_world) =
     failure 400 AllFieldsRequired \<and>
   fst (createOrder shop_offline 1000
          (ravi\<lparr>in_amount := JNumber 36, in_state := Some ''Kerala''\<rparr>) empty_world) =
     failure 400 OnlyDeliverTo \<and>
   fst (createOrder shop_offline 1000
          (ravi\<lparr>in_amount := JNumber 36, in_bookCode := Some ''ZZ''\<rparr>) empty_world) =
     failure 404 BookNotFound"
  by code_simp

lemma findOneByUtr_stored:
  "u \<in> set (map (\<lambda>d. utr (payment d)) (orders w)) \<Longrightarrow> findOneByUtr u w \<noteq> None"
  by (auto simp: findOneByUtr_def find_None_iff)

text \<open>
  Claim C9. When the UTR of the request equals the UTR of a stored order,
  \<open>createOrder\<close> fails and leaves the world as it was (the reply is 400 "UTR number
  already used" when the checks that come first pass). In every reachable world no two
  stored orders have the same UTR.
\<close>

theorem utr_is_unique:
  "(in_utr b = Some u \<and> u \<in> set (map (\<lambda>d. utr (payment d)) (orders w)) \<longrightarrow>
      \<not> success (fst (createOrder e now b w)) \<and> snd (createOrder e now b w) = w \<and>
      (all_fields_present b \<and> str (in_state b) \<in> set allowedStates \<and>
       catalog e (str (in_bookCode b)) \<noteq> None \<and> in_amount b = JNumber 35 \<longrightarrow>
         fst (createOrder e now b w) = failure 400 UtrAlreadyUsed)) \<and>
   (reachable w \<longrightarrow> distinct (map (\<lambda>d. utr (payment d)) (orders w)))"
proof -
  have A: "\<not> success (fst (createOrder e now b w)) \<and> snd (createOrder e now b w) = w \<and>
      (all_fields_present b \<and> str (in_state b) \<in> set allowedStates \<and>
       catalog e (str (in_bookCode b)) \<noteq> None \<and> in_amount b = JNumber 35 \<longrightarrow>
         fst (createOrder e now b w) = failure 400 UtrAlreadyUsed)"
    if "in_utr b = Some u \<and> u \<in> set (map (\<lambda>d. utr (payment d)) (orders w))"
  proof -
    have f: "findOneByUtr (str (in_utr b)) w \<noteq> None"
      using that findOneByUtr_stored [of u w] by (simp add: str_def)
    have ns: "\<not> success (fst (createOrder e now b w))"
    proof
      assume "success (fst (createOrder e now b w))"
      then have "findOneByUtr (str (in_utr b)) w = None"
        by (rule createOrder_succeeded)
      then show False using f by simp
    qed
    have "fst (createOrder e now b w) = failure 400 UtrAlreadyUsed"
      if "all_fields_present b \<and> str (in_state b) \<in> set allowedStates \<and>
          catalog e (str (in_bookCode b)) \<noteq> None \<and> in_amount b = JNumber 35"
      using that f
      by (auto simp: createOrder_def EXPECTED_TOTAL_def FIXED_BOOK_PRICE_def
          DELIVERY_CHARGE_def)
    then show ?thesis using ns createOrder_failed [OF ns] by blast
  qed
  have B: "reachable w \<longrightarrow> distinct (map (\<lambda>d. utr (payment d)) (orders w))"
    using reachable_store_ok [of w] by (simp add: store_ok_def)
  show ?thesis using A B by blast
qed

theorem utr_is_unique_witness:
  "in_utr ravi = Some ''123456789012'' \<and>
   ''123456789012'' \<in> set (map (\<lambda>d. utr (payment d)) (orders world_placed)) \<and>
   fst (createOrder shop 5000 ravi world_placed) = failure 400 UtrAlreadyUsed \<and>
   snd (createOrder shop 5000 ravi world_placed) = world_placed \<and>
   reachable world_two \<and>
   distinct (map (\<lambda>d. utr (payment d)) (orders world_two))"
proof -
  have a: "in_utr ravi = Some ''123456789012''"
    by (simp add: ravi_def)
  have m: "''123456789012'' \<in> set (map (\<lambda>d. utr (payment d)) (orders world_placed))"
    by code_simp
  have c: "all_fields_present ravi \<and> str (in_state ravi) \<in> set allowedStates \<and>
       catalog shop (str (in_bookCode ravi)) \<noteq> None \<and> in_amount ravi = JNumber 35"
    by code_simp
  show ?thesis
    using utr_is_unique [of ravi "''123456789012''" world_placed shop 5000]
      utr_is_unique [of ravi "''123456789012''" world_two shop 5000]
      a m c reachable_world_two
    by blast
qed

end
